theory Spec2Isabelle
  imports Main "HOL-Library.Word" "HOL-Library.Sublist"
begin

section \<open>Shared vocabulary\<close>

type_synonym uint32_t = "32 word"

text \<open>
  The structured logger \<open>g_logger()\<close>: every call appends one line, its level and the
  formatted message (each \<open>{}\<close> of the format string replaced by its argument).
\<close>

datatype level = warn | error

type_synonym log_line = "level \<times> string"

section \<open>Online-presence tracker: \<open>IOLoginData::updateOnlineStatus\<close>\<close>

text \<open>
  The function owns a function-local static hash map \<open>updateOnline\<close> and talks to two
  collaborators: the metrics sink (\<open>g_metrics().addUpDownCounter(label, delta)\<close>) and the
  database (\<open>executeQuery\<close>). The state threaded through a call holds the three:
  the static map, the up/down counters by label, and the queries executed so far.
  The two query texts the function builds are the two constructors of \<open>query\<close>,
  each carrying the \<open>guid\<close> streamed into the text.
\<close>

datatype query =
    INSERT_INTO_players_online uint32_t
  | DELETE_FROM_players_online uint32_t

record presence =
  updateOnline :: "uint32_t \<rightharpoonup> bool"
  counters :: "string \<Rightarrow> int"
  executed :: "query list"

definition addUpDownCounter :: "string \<Rightarrow> int \<Rightarrow> presence \<Rightarrow> presence" where
  "addUpDownCounter label delta s = s\<lparr>counters := (counters s)(label := counters s label + delta)\<rparr>"

definition executeQuery :: "query \<Rightarrow> presence \<Rightarrow> presence" where
  "executeQuery q s = s\<lparr>executed := executed s @ [q]\<rparr>"

text \<open>
  \<open>guid\<close> is unsigned, so the source's test \<open>guid <= 0\<close> is kept as written on the word.
  C++ precedence reads the guard as \<open>(login && found) || guid <= 0\<close>.
\<close>

definition updateOnlineStatus :: "uint32_t \<Rightarrow> bool \<Rightarrow> presence \<Rightarrow> presence" where
  "updateOnlineStatus guid login s =
     (if (login \<and> updateOnline s guid \<noteq> None) \<or> guid \<le> 0 then s
      else if login then
        (let s1 = addUpDownCounter ''players_online'' 1 s;
             q = INSERT_INTO_players_online guid;
             s2 = s1\<lparr>updateOnline := (updateOnline s1)(guid \<mapsto> True)\<rparr>
         in executeQuery q s2)
      else
        (let s1 = addUpDownCounter ''players_online'' (- 1) s;
             q = DELETE_FROM_players_online guid;
             s2 = s1\<lparr>updateOnline := (updateOnline s1)(guid := None)\<rparr>
         in executeQuery q s2))"

text \<open>The two operations of the tracker's contract are the two values of \<open>login\<close>.\<close>

definition markOnline :: "uint32_t \<Rightarrow> presence \<Rightarrow> presence" where
  "markOnline guid s = updateOnlineStatus guid True s"

definition markOffline :: "uint32_t \<Rightarrow> presence \<Rightarrow> presence" where
  "markOffline guid s = updateOnlineStatus guid False s"

text \<open>A fresh process: nobody present, every counter at zero, no query executed.\<close>

definition fresh :: presence where
  "fresh = \<lparr>updateOnline = Map.empty, counters = (\<lambda>_. 0), executed = []\<rparr>"

section \<open>Authentication gate: \<open>IOLoginData::gameWorldAuthentication\<close>\<close>

text \<open>
  The class \<open>account::Account\<close> is declared elsewhere; the function uses it only through
  the calls below, so the class is a parameter: a type \<open>'a\<close> of account objects and one
  operation per member function called. Member functions that may change the object
  return the changed object beside their result. \<open>'e\<close> is the enum \<open>account::Errors\<close>,
  of which the function names only \<open>ERROR_NO\<close>.
\<close>

record ('a, 'e) account_ops =
  Account :: "string \<Rightarrow> 'a"
  setProtocolCompat :: "bool \<Rightarrow> 'a \<Rightarrow> 'a"
  load :: "'a \<Rightarrow> 'e \<times> 'a"
  authenticate :: "'a \<Rightarrow> bool \<times> 'a"
  authenticate_password :: "string \<Rightarrow> 'a \<Rightarrow> bool \<times> 'a"
  getAccountPlayers :: "'a \<Rightarrow> ((string \<rightharpoonup> nat) \<times> 'e) \<times> 'a"
  getID :: "'a \<Rightarrow> uint32_t"
  getDescriptor :: "'a \<Rightarrow> string"
  ERROR_NO :: "'e"

text \<open>
  \<open>players[characterName]\<close> on the roster: \<open>operator[]\<close> of a hash map yields the stored
  number, and a value-initialised one (zero) for a key that is not in the map.
\<close>

definition subscript :: "(string \<rightharpoonup> nat) \<Rightarrow> string \<Rightarrow> nat" where
  "subscript players characterName =
     (case players characterName of None \<Rightarrow> 0 | Some v \<Rightarrow> v)"

text \<open>
  What a call leaves behind: the returned boolean, the assignment to the out-parameter
  \<open>accountId\<close> (\<open>None\<close> when the call never assigns it) and the lines it logged.
\<close>

record auth_result =
  returned :: bool
  accountId :: "uint32_t option"
  auth_log :: "log_line list"

text \<open>The caller's variable after the call, from its value before.\<close>

definition accountId_after :: "uint32_t \<Rightarrow> auth_result \<Rightarrow> uint32_t" where
  "accountId_after before r = (case accountId r of None \<Rightarrow> before | Some v \<Rightarrow> v)"

text \<open>
  \<open>authType\<close> is the configured string \<open>g_configManager().getString(AUTH_TYPE)\<close>.
\<close>

definition gameWorldAuthentication ::
  "('a, 'e) account_ops \<Rightarrow> string \<Rightarrow> string \<Rightarrow> string \<Rightarrow> string \<Rightarrow> bool \<Rightarrow> auth_result" where
  "gameWorldAuthentication ops authType accountDescriptor password characterName oldProtocol =
     (let account0 = setProtocolCompat ops oldProtocol (Account ops accountDescriptor);
          (e1, account1) = load ops account0
      in if ERROR_NO ops \<noteq> e1 then
           \<lparr>returned = False, accountId = None,
            auth_log = [(error, ''Couldn't load account ['' @ getDescriptor ops account1 @ ''].'')]\<rparr>
         else
           let (ok, account2) =
                 (if authType = ''session'' then authenticate ops account1
                  else authenticate_password ops password account1)
           in if \<not> ok then \<lparr>returned = False, accountId = None, auth_log = []\<rparr>
              else
                let (e2, account3) = load ops account2
                in if ERROR_NO ops \<noteq> e2 then
                     \<lparr>returned = False, accountId = None,
                      auth_log = [(error, ''Failed to load account ['' @ accountDescriptor @ '']'')]\<rparr>
                   else
                     let ((players, result), account4) = getAccountPlayers ops account3
                     in if ERROR_NO ops \<noteq> result then
                          \<lparr>returned = False, accountId = None,
                           auth_log = [(error, ''Failed to load account ['' @ accountDescriptor
                                                 @ ''] players'')]\<rparr>
                        else if subscript players characterName \<noteq> 0 then
                          \<lparr>returned = False, accountId = None,
                           auth_log = [(error, ''Account ['' @ accountDescriptor @ ''] player [''
                                                 @ characterName @ ''] not found or deleted.'')]\<rparr>
                        else
                          \<lparr>returned = True, accountId = Some (getID ops account4), auth_log = []\<rparr>)"

text \<open>
  A concrete account service for evaluating the gate. The account object is the pair of
  its descriptor and the number of times it was loaded. \<open>alice@example.com\<close> and
  \<open>carol@example.com\<close> always load (error code 0), \<open>bob@example.com\<close> loads the first
  time only, any other descriptor never (code 1). The password is \<open>secret\<close>; a session
  is always valid. The roster holds the one name \<open>Alice\<close> with the number \<open>n\<close>, and
  fetching it fails for \<open>carol@example.com\<close>. The identifier is 42.
\<close>

definition demo_ops :: "nat \<Rightarrow> (string \<times> nat, nat) account_ops" where
  "demo_ops n =
     \<lparr>Account = (\<lambda>d. (d, 0)),
      setProtocolCompat = (\<lambda>b a. a),
      load = (\<lambda>(d, k).
        (if d = ''alice@example.com'' \<or> d = ''carol@example.com''
            \<or> (d = ''bob@example.com'' \<and> k = 0) then 0 else 1, (d, Suc k))),
      authenticate = (\<lambda>a. (True, a)),
      authenticate_password = (\<lambda>pw a. (pw = ''secret'', a)),
      getAccountPlayers = (\<lambda>(d, k).
        (([''Alice'' \<mapsto> n], if d = ''carol@example.com'' then 1 else 0), (d, k))),
      getID = (\<lambda>a. 42),
      getDescriptor = fst,
      ERROR_NO = 0\<rparr>"

section \<open>Load pipeline: \<open>IOLoginData::loadPlayer\<close>\<close>

text \<open>
  The sub-loaders are the static functions of \<open>IOLoginDataLoad\<close>, defined in another file;
  \<open>loadPlayer\<close> only calls them, one after the other. Each is named here by a constructor.
\<close>

datatype sub_loader =
    loadPlayerFirst | loadPlayerExperience | loadPlayerBlessings | loadPlayerConditions
  | loadPlayerDefaultOutfit | loadPlayerSkullSystem | loadPlayerSkill | loadPlayerKills
  | loadPlayerGuild | loadPlayerStashItems | loadPlayerBestiaryCharms
  | loadPlayerInventoryItems | loadPlayerStoreInbox | loadPlayerDepotItems | loadRewardItems
  | loadPlayerInboxItems | loadPlayerStorageMap | loadPlayerVip | loadPlayerPreyClass
  | loadPlayerTaskHuntingClass | loadPlayerForgeHistory | loadPlayerBosstiary
  | loadPlayerInitializeSystem | loadPlayerUpdateSystem

text \<open>
  A sub-loader returns nothing; it signals a fault by throwing. \<open>loadPlayer\<close> has two
  handlers, for \<open>std::system_error\<close> and for its base \<open>std::exception\<close>, and no
  \<open>catch (...)\<close>. So three shapes of thrown value matter: the two the handlers match,
  each with its \<open>what()\<close> text, and any value that is not a \<open>std::exception\<close> (C++ lets
  a function throw a value of any type), with a rendering of the value.
\<close>

datatype exception = std_system_error string | std_exception string | other_throwable string

text \<open>
  A sub-loader acts on the world \<open>'w\<close> (the aggregate behind the player pointer, the
  snapshot's cursors, the store, whatever it can reach): it returns the world it leaves
  and the exception it threw, if any. It gets the player pointer \<open>'p\<close> and, where the call
  passes it, the snapshot \<open>'r\<close> (\<open>None\<close> for the calls that pass the player only).
\<close>

type_synonym ('p, 'r, 'w) loaders =
  "sub_loader \<Rightarrow> 'p \<Rightarrow> 'r option \<Rightarrow> 'w \<Rightarrow> exception option \<times> 'w"

text \<open>
  A run: the world, the sub-loaders invoked so far in order (each with what it threw),
  and the lines \<open>loadPlayer\<close> itself logged.
\<close>

record 'w load_run =
  world :: 'w
  invoked :: "(sub_loader \<times> exception option) list"
  load_log :: "log_line list"

text \<open>
  The calls of the try block in source order, each with whether it passes \<open>result\<close>:
  those before the test of \<open>disableIrrelevantInfo\<close>, and those after it.
\<close>

definition always_run :: "(sub_loader \<times> bool) list" where
  "always_run =
     [(loadPlayerFirst, True), (loadPlayerExperience, True), (loadPlayerBlessings, True),
      (loadPlayerConditions, True), (loadPlayerDefaultOutfit, True),
      (loadPlayerSkullSystem, True), (loadPlayerSkill, True), (loadPlayerKills, True),
      (loadPlayerGuild, True), (loadPlayerStashItems, True), (loadPlayerBestiaryCharms, True),
      (loadPlayerInventoryItems, True), (loadPlayerStoreInbox, False),
      (loadPlayerDepotItems, True), (loadRewardItems, False), (loadPlayerInboxItems, True),
      (loadPlayerStorageMap, True), (loadPlayerVip, True), (loadPlayerPreyClass, True),
      (loadPlayerTaskHuntingClass, True)]"

definition relevant_only :: "(sub_loader \<times> bool) list" where
  "relevant_only =
     [(loadPlayerForgeHistory, True), (loadPlayerBosstiary, True),
      (loadPlayerInitializeSystem, False), (loadPlayerUpdateSystem, False)]"

text \<open>Straight-line calls: the first one that throws ends the sequence.\<close>

fun run_loaders ::
  "('p, 'r, 'w) loaders \<Rightarrow> 'p \<Rightarrow> 'r \<Rightarrow> (sub_loader \<times> bool) list \<Rightarrow> 'w load_run
     \<Rightarrow> exception option \<times> 'w load_run" where
  "run_loaders env p r [] st = (None, st)"
| "run_loaders env p r ((l, with_result) # ls) st =
     (case env l p (if with_result then Some r else None) (world st) of
        (thrown, w') \<Rightarrow>
          (let st' = st\<lparr>world := w', invoked := invoked st @ [(l, thrown)]\<rparr>
           in case thrown of
                Some e \<Rightarrow> (Some e, st')
              | None \<Rightarrow> run_loaders env p r ls st'))"

text \<open>The try block: it either returns a boolean or leaves with an exception.\<close>

definition loadPlayer_body ::
  "('p, 'r, 'w) loaders \<Rightarrow> 'p \<Rightarrow> 'r \<Rightarrow> bool \<Rightarrow> 'w load_run \<Rightarrow> (exception + bool) \<times> 'w load_run" where
  "loadPlayer_body env p r disableIrrelevantInfo st =
     (case run_loaders env p r always_run st of
        (Some e, st1) \<Rightarrow> (Inl e, st1)
      | (None, st1) \<Rightarrow>
          if disableIrrelevantInfo then (Inr True, st1)
          else (case run_loaders env p r relevant_only st1 of
                  (Some e, st2) \<Rightarrow> (Inl e, st2)
                | (None, st2) \<Rightarrow> (Inr True, st2)))"

text \<open>
  What the world becomes when the sub-loaders of a list of calls are applied to it one
  after the other.
\<close>

definition applied ::
  "('p, 'r, 'w) loaders \<Rightarrow> 'p \<Rightarrow> 'r \<Rightarrow> (sub_loader \<times> bool) list \<Rightarrow> 'w \<Rightarrow> 'w" where
  "applied env p r steps w =
     foldl (\<lambda>w' (l, with_result). snd (env l p (if with_result then Some r else None) w')) w steps"

text \<open>
  \<open>player\<close> and \<open>result\<close> are shared pointers: \<open>None\<close> is \<open>nullptr\<close>. \<open>__FUNCTION__\<close> is
  \<open>loadPlayer\<close>. A call either returns a boolean (\<open>Inr\<close>) or is left by a thrown value
  that neither handler matches and that goes on to the caller (\<open>Inl\<close>).
\<close>

definition log_warn :: "string \<Rightarrow> 'w load_run \<Rightarrow> 'w load_run" where
  "log_warn msg st = st\<lparr>load_log := load_log st @ [(warn, msg)]\<rparr>"

definition loadPlayer ::
  "('p, 'r, 'w) loaders \<Rightarrow> 'p option \<Rightarrow> 'r option \<Rightarrow> bool \<Rightarrow> 'w
     \<Rightarrow> (exception + bool) \<times> 'w load_run" where
  "loadPlayer env player result disableIrrelevantInfo w =
     (let st0 = \<lparr>world = w, invoked = [], load_log = []\<rparr>
      in case (result, player) of
           (Some r, Some p) \<Rightarrow>
             (case loadPlayer_body env p r disableIrrelevantInfo st0 of
                (Inr b, st) \<Rightarrow> (Inr b, st)
              | (Inl (std_system_error what), st) \<Rightarrow>
                  (Inr False, log_warn (''[loadPlayer] Error while load player: '' @ what) st)
              | (Inl (std_exception what), st) \<Rightarrow>
                  (Inr False, log_warn (''[loadPlayer] Error while load player: '' @ what) st)
              | (Inl (other_throwable v), st) \<Rightarrow> (Inl (other_throwable v), st))
         | _ \<Rightarrow>
             (let nullptrType = (if result = None then ''Result'' else ''Player'')
              in (Inr False, log_warn (''[loadPlayer] - '' @ nullptrType @ '' is nullptr'') st0)))"

text \<open>
  Concrete sub-loaders for evaluating the pipeline. The world is the list of facets
  populated so far and a number standing for the store. The snapshot says what is wrong
  with the row, if anything: \<open>None\<close> for a well-formed row, \<open>Some e\<close> for a row on which
  \<open>loadPlayerSkill\<close> throws \<open>e\<close>. Every other call appends its facet; none touches the
  store.
\<close>

definition demo_loaders :: "(unit, exception option, sub_loader list \<times> nat) loaders" where
  "demo_loaders l p ro w =
     (case ro of
        Some (Some e) \<Rightarrow> if l = loadPlayerSkill then (Some e, w) else (None, (fst w @ [l], snd w))
      | _ \<Rightarrow> (None, (fst w @ [l], snd w)))"

section \<open>Save pipeline: \<open>IOLoginData::savePlayerGuard\<close> and \<open>IOLoginData::savePlayer\<close>\<close>

text \<open>
  The sub-savers are the static functions of \<open>IOLoginDataSave\<close> and one member function of
  the player's wheel, all defined in other files. Each returns a boolean and may write to
  the store.
\<close>

datatype sub_saver =
    savePlayerFirst | savePlayerStash | savePlayerSpells | savePlayerKills
  | savePlayerBestiarySystem | savePlayerItem | savePlayerDepotItems | saveRewardItems
  | savePlayerInbox | savePlayerPreyClass | savePlayerTaskHuntingClass
  | savePlayerForgeHistory | savePlayerBosstiary | saveDBPlayerSlotPointsOnLogout
  | savePlayerStorage

datatype DatabaseException = DatabaseException string

text \<open>
  \<open>'s\<close> is the stored representation as the connection sees it (inside a unit of work,
  with the writes made so far). \<open>saver\<close> gives each sub-saver's effect on it and the
  boolean it returns; \<open>getName\<close> is \<open>player->getName()\<close>.
\<close>

record ('p, 's) save_env =
  saver :: "sub_saver \<Rightarrow> 'p \<Rightarrow> 's \<Rightarrow> bool \<times> 's"
  getName :: "'p \<Rightarrow> string"

text \<open>
  A run: the store, the sub-savers invoked so far in order (each with the boolean it
  returned), and the lines logged.
\<close>

record 's save_run =
  store :: 's
  calls :: "(sub_saver \<times> bool) list"
  save_log :: "log_line list"

text \<open>The order of the \<open>if\<close> statements of \<open>savePlayerGuard\<close>.\<close>

definition saver_order :: "sub_saver list" where
  "saver_order =
     [savePlayerFirst, savePlayerStash, savePlayerSpells, savePlayerKills,
      savePlayerBestiarySystem, savePlayerItem, savePlayerDepotItems, saveRewardItems,
      savePlayerInbox, savePlayerPreyClass, savePlayerTaskHuntingClass,
      savePlayerForgeHistory, savePlayerBosstiary, saveDBPlayerSlotPointsOnLogout,
      savePlayerStorage]"

text \<open>
  The text each \<open>throw\<close> builds, character for character; \<open>__FUNCTION__\<close> is
  \<open>savePlayerGuard\<close>. The second and the fourth carry the tags the source gives them.
\<close>

fun failure_text :: "sub_saver \<Rightarrow> string" where
  "failure_text savePlayerFirst = ''[savePlayerGuard] - Failed to save player first: ''"
| "failure_text savePlayerStash =
     ''[IOLoginDataSave::savePlayerFirst] - Failed to save player stash: ''"
| "failure_text savePlayerSpells =
     ''[IOLoginDataSave::savePlayerSpells] - Failed to save player spells: ''"
| "failure_text savePlayerKills =
     ''IOLoginDataSave::savePlayerKills] - Failed to save player kills: ''"
| "failure_text savePlayerBestiarySystem =
     ''[IOLoginDataSave::savePlayerBestiarySystem] - Failed to save player bestiary system: ''"
| "failure_text savePlayerItem =
     ''[IOLoginDataSave::savePlayerItem] - Failed to save player item: ''"
| "failure_text savePlayerDepotItems =
     ''[IOLoginDataSave::savePlayerDepotItems] - Failed to save player depot items: ''"
| "failure_text saveRewardItems =
     ''[IOLoginDataSave::saveRewardItems] - Failed to save player reward items: ''"
| "failure_text savePlayerInbox =
     ''[IOLoginDataSave::savePlayerInbox] - Failed to save player inbox: ''"
| "failure_text savePlayerPreyClass =
     ''[IOLoginDataSave::savePlayerPreyClass] - Failed to save player prey class: ''"
| "failure_text savePlayerTaskHuntingClass =
     ''[IOLoginDataSave::savePlayerTaskHuntingClass] - Failed to save player task hunting class: ''"
| "failure_text savePlayerForgeHistory =
     ''[IOLoginDataSave::savePlayerForgeHistory] - Failed to save player forge history: ''"
| "failure_text savePlayerBosstiary =
     ''[IOLoginDataSave::savePlayerBosstiary] - Failed to save player bosstiary: ''"
| "failure_text saveDBPlayerSlotPointsOnLogout =
     ''[PlayerWheel::saveDBPlayerSlotPointsOnLogout] - Failed to save player wheel info: ''"
| "failure_text savePlayerStorage =
     ''[IOLoginDataSave::savePlayerStorage] - Failed to save player storage: ''"

definition failure :: "sub_saver \<Rightarrow> string \<Rightarrow> DatabaseException" where
  "failure k name = DatabaseException (failure_text k @ name)"

text \<open>
  The chain of \<open>if (!save...(player)) throw ...\<close>: the first sub-saver that returns false
  ends the chain with its exception.
\<close>

fun run_savers ::
  "('p, 's) save_env \<Rightarrow> 'p \<Rightarrow> sub_saver list \<Rightarrow> 's save_run
     \<Rightarrow> DatabaseException option \<times> 's save_run" where
  "run_savers env p [] st = (None, st)"
| "run_savers env p (k # ks) st =
     (case saver env k p (store st) of
        (ok, s') \<Rightarrow>
          (let st' = st\<lparr>store := s', calls := calls st @ [(k, ok)]\<rparr>
           in if \<not> ok then (Some (failure k (getName env p)), st')
              else run_savers env p ks st'))"

definition savePlayerGuard ::
  "('p, 's) save_env \<Rightarrow> 'p option \<Rightarrow> 's save_run \<Rightarrow> (DatabaseException + bool) \<times> 's save_run" where
  "savePlayerGuard env player st =
     (case player of
        None \<Rightarrow> (Inl (DatabaseException ''Player nullptr in function: savePlayerGuard''), st)
      | Some p \<Rightarrow>
          (case run_savers env p saver_order st of
             (Some e, st') \<Rightarrow> (Inl e, st')
           | (None, st') \<Rightarrow> (Inr True, st')))"






section \<open>Facts about the presence tracker\<close>

lemma markOnline_absent:
  "0 < guid \<Longrightarrow> updateOnline s guid = None \<Longrightarrow>
   markOnline guid s =
     s\<lparr>updateOnline := (updateOnline s)(guid \<mapsto> True),
       counters := (counters s)(''players_online'' := counters s ''players_online'' + 1),
       executed := executed s @ [INSERT_INTO_players_online guid]\<rparr>"
  by (simp add: markOnline_def updateOnlineStatus_def addUpDownCounter_def executeQuery_def
      Let_def)

lemma markOnline_present: "updateOnline s guid \<noteq> None \<Longrightarrow> markOnline guid s = s"
  by (simp add: markOnline_def updateOnlineStatus_def)

lemma updateOnlineStatus_zero: "updateOnlineStatus 0 login s = s"
  by (simp add: updateOnlineStatus_def)

lemma markOffline_positive:
  "0 < guid \<Longrightarrow>
   markOffline guid s =
     s\<lparr>updateOnline := (updateOnline s)(guid := None),
       counters := (counters s)(''players_online'' := counters s ''players_online'' - 1),
       executed := executed s @ [DELETE_FROM_players_online guid]\<rparr>"
  by (simp add: markOffline_def updateOnlineStatus_def addUpDownCounter_def executeQuery_def
      Let_def)

lemma markOnline_nonpositive: "guid \<le> 0 \<Longrightarrow> markOnline guid s = s"
  by (simp add: markOnline_def updateOnlineStatus_def)

lemma markOnline_idem: "markOnline guid (markOnline guid s) = markOnline guid s"
proof (cases "0 < guid \<and> updateOnline s guid = None")
  case True
  then have "updateOnline (markOnline guid s) guid \<noteq> None"
    by (simp add: markOnline_absent)
  then show ?thesis by (rule markOnline_present)
next
  case False
  then have "markOnline guid s = s"
    by (auto simp: markOnline_present markOnline_nonpositive word_gt_0)
  then show ?thesis by simp
qed

text \<open>
  C5. Two \<open>markOnline\<close> calls in a row with the same id: the second is a complete no-op
  (the state after two calls is the state after one, for every id and every state). From
  a state where a positive id is absent, the two calls together move the
  \<open>players_online\<close> counter by exactly +1, execute exactly one insert (none on the
  second call) and record the id as present. On an id that is already present, and on
  a non-positive id, \<open>markOnline\<close> changes nothing at all.
\<close>

theorem markOnline_twice:
  "markOnline guid (markOnline guid s) = markOnline guid s
   \<and> (0 < guid \<and> updateOnline s guid = None \<longrightarrow>
        counters (markOnline guid (markOnline guid s)) ''players_online''
          = counters s ''players_online'' + 1
        \<and> executed (markOnline guid (markOnline guid s))
          = executed s @ [INSERT_INTO_players_online guid]
        \<and> updateOnline (markOnline guid (markOnline guid s)) = (updateOnline s)(guid \<mapsto> True))
   \<and> (updateOnline s guid \<noteq> None \<longrightarrow> markOnline guid s = s)
   \<and> (guid \<le> 0 \<longrightarrow> markOnline guid s = s)"
  by (simp add: markOnline_idem markOnline_absent markOnline_present markOnline_nonpositive)

theorem markOnline_twice_witness:
  "(0::uint32_t) < 7 \<and> updateOnline fresh 7 = None
   \<and> markOnline 7 (markOnline 7 fresh) = markOnline 7 fresh
   \<and> counters (markOnline 7 (markOnline 7 fresh)) ''players_online'' = 1
   \<and> executed (markOnline 7 (markOnline 7 fresh)) = [INSERT_INTO_players_online 7]
   \<and> updateOnline (markOnline 7 (markOnline 7 fresh)) = [7 \<mapsto> True]
   \<and> updateOnline (markOnline 7 fresh) 7 = Some True
   \<and> markOnline 7 (markOnline 7 fresh) = markOnline 7 fresh
   \<and> (0::uint32_t) \<le> 0 \<and> markOnline 0 fresh = fresh"
proof -
  have h: "(0::uint32_t) < 7 \<and> updateOnline fresh 7 = None"
    by (simp add: fresh_def)
  have absent: "counters (markOnline 7 (markOnline 7 fresh)) ''players_online''
          = counters fresh ''players_online'' + 1
        \<and> executed (markOnline 7 (markOnline 7 fresh))
          = executed fresh @ [INSERT_INTO_players_online 7]
        \<and> updateOnline (markOnline 7 (markOnline 7 fresh)) = (updateOnline fresh)(7 \<mapsto> True)"
    using markOnline_twice [of 7 fresh] h by blast
  have idem: "markOnline 7 (markOnline 7 fresh) = markOnline 7 fresh"
    using markOnline_twice [of 7 fresh] by blast
  have p: "updateOnline (markOnline 7 fresh) 7 = Some True"
    using absent unfolding idem by simp
  have present: "markOnline 7 (markOnline 7 fresh) = markOnline 7 fresh"
    using markOnline_twice [of 7 "markOnline 7 fresh"] p by simp
  have zero: "markOnline 0 fresh = fresh"
    using markOnline_twice [of 0 fresh] by simp
  show ?thesis
    using h absent idem p zero by (simp add: fresh_def)
qed

text \<open>
  C6. From a state where the positive id \<open>x\<close> is absent, \<open>markOnline x\<close>, \<open>markOffline x\<close>,
  \<open>markOnline x\<close> leaves \<open>x\<close> recorded as online, and the net change of the
  \<open>players_online\<close> counter over the three calls is exactly +1 (the queries executed
  are insert, delete, insert).
\<close>

theorem online_offline_online:
  assumes "0 < x" and "updateOnline s x = None"
  shows "updateOnline (markOnline x (markOffline x (markOnline x s))) = (updateOnline s)(x \<mapsto> True)
    \<and> updateOnline (markOnline x (markOffline x (markOnline x s))) x = Some True
    \<and> counters (markOnline x (markOffline x (markOnline x s))) ''players_online''
        = counters s ''players_online'' + 1
    \<and> executed (markOnline x (markOffline x (markOnline x s)))
        = executed s @ [INSERT_INTO_players_online x, DELETE_FROM_players_online x,
                        INSERT_INTO_players_online x]"
proof -
  let ?s1 = "markOnline x s"
  let ?s2 = "markOffline x ?s1"
  have s1: "?s1 = s\<lparr>updateOnline := (updateOnline s)(x \<mapsto> True),
       counters := (counters s)(''players_online'' := counters s ''players_online'' + 1),
       executed := executed s @ [INSERT_INTO_players_online x]\<rparr>"
    using assms by (rule markOnline_absent)
  have absent2: "updateOnline ?s2 x = None"
    using assms(1) by (simp add: markOffline_positive)
  have s3: "markOnline x ?s2 = ?s2\<lparr>updateOnline := (updateOnline ?s2)(x \<mapsto> True),
       counters := (counters ?s2)(''players_online'' := counters ?s2 ''players_online'' + 1),
       executed := executed ?s2 @ [INSERT_INTO_players_online x]\<rparr>"
    using assms(1) absent2 by (rule markOnline_absent)
  show ?thesis
    unfolding s3 using assms(1) by (simp add: markOffline_positive s1)
qed

theorem online_offline_online_witness:
  "(0::uint32_t) < 7 \<and> updateOnline fresh 7 = None
   \<and> updateOnline (markOnline 7 (markOffline 7 (markOnline 7 fresh))) = [7 \<mapsto> True]
   \<and> updateOnline (markOnline 7 (markOffline 7 (markOnline 7 fresh))) 7 = Some True
   \<and> counters (markOnline 7 (markOffline 7 (markOnline 7 fresh))) ''players_online'' = 1
   \<and> executed (markOnline 7 (markOffline 7 (markOnline 7 fresh)))
       = [INSERT_INTO_players_online 7, DELETE_FROM_players_online 7,
          INSERT_INTO_players_online 7]"
proof -
  have h1: "(0::uint32_t) < 7" by simp
  have h2: "updateOnline fresh 7 = None" by (simp add: fresh_def)
  show ?thesis
    using online_offline_online [OF h1 h2] h1 h2 by (simp add: fresh_def)
qed

text \<open>
  C10. The guard of \<open>updateOnlineStatus\<close> is asymmetric. For a positive id that is not
  present, \<open>markOffline\<close> still moves the \<open>players_online\<close> counter by -1 and still
  executes the delete, while the presence map stays as it was; in the same state
  \<open>markOnline\<close> of an id that is present does nothing. For the id zero both
  \<open>markOnline\<close> and \<open>markOffline\<close> change nothing: no counter change, no query.
\<close>

theorem markOffline_absent_still_counts:
  "(0 < guid \<and> updateOnline s guid = None \<longrightarrow>
      markOffline guid s =
        s\<lparr>counters := (counters s)(''players_online'' := counters s ''players_online'' - 1),
          executed := executed s @ [DELETE_FROM_players_online guid]\<rparr>
      \<and> counters (markOffline guid s) ''players_online'' = counters s ''players_online'' - 1
      \<and> executed (markOffline guid s) = executed s @ [DELETE_FROM_players_online guid]
      \<and> updateOnline (markOffline guid s) = updateOnline s)
   \<and> markOnline 0 s = s \<and> markOffline 0 s = s"
proof -
  have erase: "updateOnline s guid = None \<Longrightarrow> (updateOnline s)(guid := None) = updateOnline s"
    by (rule ext) simp
  have zero: "markOnline 0 s = s \<and> markOffline 0 s = s"
    by (simp add: markOnline_def markOffline_def updateOnlineStatus_zero)
  show ?thesis
    using erase zero by (simp add: markOffline_positive)
qed

theorem markOffline_absent_still_counts_witness:
  "(0::uint32_t) < 7 \<and> updateOnline fresh 7 = None
   \<and> counters (markOffline 7 fresh) ''players_online'' = - 1
   \<and> executed (markOffline 7 fresh) = [DELETE_FROM_players_online 7]
   \<and> updateOnline (markOffline 7 fresh) = Map.empty
   \<and> markOnline 0 fresh = fresh \<and> markOffline 0 fresh = fresh"
proof -
  have h: "(0::uint32_t) < 7 \<and> updateOnline fresh 7 = None"
    by (simp add: fresh_def)
  show ?thesis
    using markOffline_absent_still_counts [of 7 fresh] h by (simp add: fresh_def)
qed

section \<open>Facts about the authentication gate\<close>

lemma subscript_present: "players characterName = Some v \<Longrightarrow> subscript players characterName = v"
  by (simp add: subscript_def)

text \<open>
  C1, as the code has it. The claim reads a nonzero roster number as "found" and zero as
  "not found"; the code tests \<open>players[characterName] != 0\<close> and fails on a nonzero
  number, logging "not found or deleted". Amended: in a call in which the account
  loads, the credential check passes, the reload succeeds and the roster loads, and
  the requested character name is in the roster, the call returns true and assigns
  \<open>account.getID()\<close> to \<open>accountId\<close> if and only if the roster's number at that name is
  zero; a nonzero number at that name makes the call return false, assign nothing and
  log the "not found or deleted" line.
\<close>

theorem character_check:
  assumes "load ops (setProtocolCompat ops oldProtocol (Account ops accountDescriptor))
             = (ERROR_NO ops, loaded)"
    and "(if authType = ''session'' then authenticate ops loaded
          else authenticate_password ops password loaded) = (True, authenticated)"
    and "load ops authenticated = (ERROR_NO ops, reloaded)"
    and "getAccountPlayers ops reloaded = ((players, ERROR_NO ops), listed)"
    and "players characterName = Some v"
  shows "((returned (gameWorldAuthentication ops authType accountDescriptor password
                      characterName oldProtocol)
           \<and> accountId (gameWorldAuthentication ops authType accountDescriptor password
                      characterName oldProtocol) = Some (getID ops listed))
          \<longleftrightarrow> v = 0)
    \<and> (v \<noteq> 0 \<longrightarrow>
          gameWorldAuthentication ops authType accountDescriptor password characterName oldProtocol
            = \<lparr>returned = False, accountId = None,
               auth_log = [(error, ''Account ['' @ accountDescriptor @ ''] player [''
                                     @ characterName @ ''] not found or deleted.'')]\<rparr>)"
  using assms by (simp add: gameWorldAuthentication_def subscript_present)

theorem character_check_witness:
  "returned (gameWorldAuthentication (demo_ops 0) ''password'' ''alice@example.com'' ''secret''
              ''Alice'' False)
   \<and> accountId (gameWorldAuthentication (demo_ops 0) ''password'' ''alice@example.com''
              ''secret'' ''Alice'' False) = Some 42
   \<and> gameWorldAuthentication (demo_ops 3) ''password'' ''alice@example.com'' ''secret''
              ''Alice'' False
       = \<lparr>returned = False, accountId = None,
          auth_log = [(error, ''Account [alice@example.com] player [Alice] not found or deleted.'')]\<rparr>"
proof -
  have zero: "returned (gameWorldAuthentication (demo_ops 0) ''password'' ''alice@example.com''
              ''secret'' ''Alice'' False)
   \<and> accountId (gameWorldAuthentication (demo_ops 0) ''password'' ''alice@example.com''
              ''secret'' ''Alice'' False) = Some 42"
    using character_check [where ops = "demo_ops 0" and oldProtocol = False
        and accountDescriptor = "''alice@example.com''" and authType = "''password''"
        and password = "''secret''" and characterName = "''Alice''" and v = 0
        and loaded = "(''alice@example.com'', 1)" and authenticated = "(''alice@example.com'', 1)"
        and reloaded = "(''alice@example.com'', 2)" and listed = "(''alice@example.com'', 2)"
        and players = "[''Alice'' \<mapsto> 0]"]
    by (simp add: demo_ops_def)
  have three: "gameWorldAuthentication (demo_ops 3) ''password'' ''alice@example.com'' ''secret''
              ''Alice'' False
       = \<lparr>returned = False, accountId = None,
          auth_log = [(error, ''Account ['' @ ''alice@example.com'' @ ''] player [''
                                @ ''Alice'' @ ''] not found or deleted.'')]\<rparr>"
    using character_check [where ops = "demo_ops 3" and oldProtocol = False
        and accountDescriptor = "''alice@example.com''" and authType = "''password''"
        and password = "''secret''" and characterName = "''Alice''" and v = 3
        and loaded = "(''alice@example.com'', 1)" and authenticated = "(''alice@example.com'', 1)"
        and reloaded = "(''alice@example.com'', 2)" and listed = "(''alice@example.com'', 2)"
        and players = "[''Alice'' \<mapsto> 3]"]
    by (simp add: demo_ops_def)
  show ?thesis using zero three by simp
qed

text \<open>
  The claim C1 as stated fails on the spec's own scenario: with the roster number of
  \<open>Alice\<close> nonzero, a correct password and every collaborator succeeding, asking for
  \<open>Alice\<close> returns false and assigns nothing, and asking for \<open>Bob\<close>, who is not in the
  roster, returns true and assigns the identifier.
\<close>

theorem nonzero_index_rejected:
  "\<not> returned (gameWorldAuthentication (demo_ops 1) ''password'' ''alice@example.com''
                ''secret'' ''Alice'' False)
   \<and> accountId (gameWorldAuthentication (demo_ops 1) ''password'' ''alice@example.com''
                ''secret'' ''Alice'' False) = None
   \<and> returned (gameWorldAuthentication (demo_ops 1) ''password'' ''alice@example.com''
                ''secret'' ''Bob'' False)
   \<and> accountId (gameWorldAuthentication (demo_ops 1) ''password'' ''alice@example.com''
                ''secret'' ''Bob'' False) = Some 42"
  by (simp add: gameWorldAuthentication_def demo_ops_def subscript_def)

text \<open>
  C7. With the configured authentication mode \<open>session\<close>, two calls that differ only in
  the password, against the same account service, have the same outcome: the same
  returned boolean, the same assignment to \<open>accountId\<close>, the same log.
\<close>

theorem session_ignores_password:
  "gameWorldAuthentication ops ''session'' accountDescriptor password1 characterName oldProtocol
   = gameWorldAuthentication ops ''session'' accountDescriptor password2 characterName oldProtocol"
  unfolding gameWorldAuthentication_def if_P [OF refl] ..

theorem session_ignores_password_witness:
  "gameWorldAuthentication (demo_ops 0) ''session'' ''alice@example.com'' ''secret'' ''Alice'' False
   = gameWorldAuthentication (demo_ops 0) ''session'' ''alice@example.com'' ''wrong'' ''Alice'' False
   \<and> gameWorldAuthentication (demo_ops 0) ''session'' ''alice@example.com'' ''wrong'' ''Alice'' False
   = \<lparr>returned = True, accountId = Some 42, auth_log = []\<rparr>
   \<and> gameWorldAuthentication (demo_ops 0) ''password'' ''alice@example.com'' ''wrong'' ''Alice'' False
   = \<lparr>returned = False, accountId = None, auth_log = []\<rparr>"
proof -
  have same: "gameWorldAuthentication (demo_ops 0) ''session'' ''alice@example.com'' ''secret''
                ''Alice'' False
     = gameWorldAuthentication (demo_ops 0) ''session'' ''alice@example.com'' ''wrong''
                ''Alice'' False"
    by (rule session_ignores_password)
  have "gameWorldAuthentication (demo_ops 0) ''session'' ''alice@example.com'' ''wrong''
                ''Alice'' False = \<lparr>returned = True, accountId = Some 42, auth_log = []\<rparr>"
    by (simp add: gameWorldAuthentication_def demo_ops_def subscript_def)
  moreover have "gameWorldAuthentication (demo_ops 0) ''password'' ''alice@example.com''
                ''wrong'' ''Alice'' False = \<lparr>returned = False, accountId = None, auth_log = []\<rparr>"
    by (simp add: gameWorldAuthentication_def demo_ops_def subscript_def)
  ultimately show ?thesis using same by simp
qed

text \<open>
  C9. Whatever the account service answers, a call that returns false assigns nothing
  to the out-parameter \<open>accountId\<close> (the caller's variable keeps the value it had), and
  \<open>accountId\<close> is assigned exactly when the call returns true.
\<close>

theorem accountId_written_iff_true:
  "(\<not> returned (gameWorldAuthentication ops authType accountDescriptor password
                  characterName oldProtocol)
      \<longrightarrow> accountId (gameWorldAuthentication ops authType accountDescriptor password
                  characterName oldProtocol) = None
        \<and> accountId_after before (gameWorldAuthentication ops authType accountDescriptor
                  password characterName oldProtocol) = before)
   \<and> (returned (gameWorldAuthentication ops authType accountDescriptor password
                  characterName oldProtocol)
      \<longleftrightarrow> accountId (gameWorldAuthentication ops authType accountDescriptor password
                  characterName oldProtocol) \<noteq> None)"
  by (simp add: gameWorldAuthentication_def accountId_after_def Let_def split: prod.splits)

text \<open>
  The five ways to fail (account does not load, password rejected, reload fails, roster
  does not load, character check) and the one way to succeed, on the concrete service,
  with the caller's variable holding 5 before the call.
\<close>

theorem accountId_written_iff_true_witness:
  "accountId_after 5 (gameWorldAuthentication (demo_ops 0) ''password'' ''dave@example.com''
      ''secret'' ''Alice'' False) = 5
   \<and> accountId_after 5 (gameWorldAuthentication (demo_ops 0) ''password'' ''alice@example.com''
      ''wrong'' ''Alice'' False) = 5
   \<and> accountId_after 5 (gameWorldAuthentication (demo_ops 0) ''password'' ''bob@example.com''
      ''secret'' ''Alice'' False) = 5
   \<and> accountId_after 5 (gameWorldAuthentication (demo_ops 0) ''password'' ''carol@example.com''
      ''secret'' ''Alice'' False) = 5
   \<and> accountId_after 5 (gameWorldAuthentication (demo_ops 1) ''password'' ''alice@example.com''
      ''secret'' ''Alice'' False) = 5
   \<and> accountId (gameWorldAuthentication (demo_ops 0) ''password'' ''alice@example.com''
      ''secret'' ''Alice'' False) = Some 42"
proof -
  have r1: "\<not> returned (gameWorldAuthentication (demo_ops 0) ''password'' ''dave@example.com''
      ''secret'' ''Alice'' False)"
    by (simp add: gameWorldAuthentication_def demo_ops_def subscript_def)
  have r2: "\<not> returned (gameWorldAuthentication (demo_ops 0) ''password'' ''alice@example.com''
      ''wrong'' ''Alice'' False)"
    by (simp add: gameWorldAuthentication_def demo_ops_def subscript_def)
  have r3: "\<not> returned (gameWorldAuthentication (demo_ops 0) ''password'' ''bob@example.com''
      ''secret'' ''Alice'' False)"
    by (simp add: gameWorldAuthentication_def demo_ops_def subscript_def)
  have r4: "\<not> returned (gameWorldAuthentication (demo_ops 0) ''password'' ''carol@example.com''
      ''secret'' ''Alice'' False)"
    by (simp add: gameWorldAuthentication_def demo_ops_def subscript_def)
  have r5: "\<not> returned (gameWorldAuthentication (demo_ops 1) ''password'' ''alice@example.com''
      ''secret'' ''Alice'' False)"
    by (simp add: gameWorldAuthentication_def demo_ops_def subscript_def)
  have r6: "accountId (gameWorldAuthentication (demo_ops 0) ''password'' ''alice@example.com''
      ''secret'' ''Alice'' False) = Some 42"
    by (simp add: gameWorldAuthentication_def demo_ops_def subscript_def)
  show ?thesis
    using r1 r2 r3 r4 r5 r6
      accountId_written_iff_true [of "demo_ops 0" "''password''" "''dave@example.com''"
        "''secret''" "''Alice''" False 5]
      accountId_written_iff_true [of "demo_ops 0" "''password''" "''alice@example.com''"
        "''wrong''" "''Alice''" False 5]
      accountId_written_iff_true [of "demo_ops 0" "''password''" "''bob@example.com''"
        "''secret''" "''Alice''" False 5]
      accountId_written_iff_true [of "demo_ops 0" "''password''" "''carol@example.com''"
        "''secret''" "''Alice''" False 5]
      accountId_written_iff_true [of "demo_ops 1" "''password''" "''alice@example.com''"
        "''secret''" "''Alice''" False 5]
    by blast
qed

section \<open>Facts about the load pipeline\<close>

lemma applied_Cons:
  "applied env p r ((l, wr) # steps) w
     = applied env p r steps (snd (env l p (if wr then Some r else None) w))"
  by (simp add: applied_def)

lemma applied_append:
  "applied env p r (xs @ ys) w = applied env p r ys (applied env p r xs w)"
  by (simp add: applied_def)

lemma run_loaders_trace:
  "run_loaders env p r ls st = (res, st') \<Longrightarrow>
    \<exists>tr. invoked st' = invoked st @ tr \<and> load_log st' = load_log st
       \<and> prefix (map fst tr) (map fst ls)
       \<and> world st' = applied env p r (take (length tr) ls) (world st)
       \<and> (\<forall>c\<in>set (butlast tr). snd c = None)
       \<and> (case res of None \<Rightarrow> map fst tr = map fst ls \<and> (\<forall>c\<in>set tr. snd c = None)
                    | Some e \<Rightarrow> tr \<noteq> [] \<and> snd (last tr) = Some e)"
proof (induction ls arbitrary: st)
  case Nil
  then show ?case by (simp add: applied_def)
next
  case (Cons a ls)
  obtain l wr where a: "a = (l, wr)" by (cases a)
  obtain thrown w' where call: "env l p (if wr then Some r else None) (world st) = (thrown, w')"
    by (cases "env l p (if wr then Some r else None) (world st)")
  let ?st = "st\<lparr>world := w', invoked := invoked st @ [(l, thrown)]\<rparr>"
  have step: "applied env p r ((l, wr) # xs) (world st) = applied env p r xs w'" for xs
    using call by (simp add: applied_Cons)
  show ?case
  proof (cases thrown)
    case None
    with Cons.prems a call have "run_loaders env p r ls ?st = (res, st')"
      by simp
    from Cons.IH [OF this] obtain tr where
      tr: "invoked st' = invoked ?st @ tr" "load_log st' = load_log ?st"
        "prefix (map fst tr) (map fst ls)"
        "world st' = applied env p r (take (length tr) ls) (world ?st)"
        "\<forall>c\<in>set (butlast tr). snd c = None"
        "(case res of None \<Rightarrow> map fst tr = map fst ls \<and> (\<forall>c\<in>set tr. snd c = None)
                    | Some e \<Rightarrow> tr \<noteq> [] \<and> snd (last tr) = Some e)"
      by blast
    show ?thesis
    proof (intro exI [of _ "(l, thrown) # tr"] conjI)
      show "invoked st' = invoked st @ (l, thrown) # tr" using tr(1) by simp
      show "load_log st' = load_log st" using tr(2) by simp
      show "prefix (map fst ((l, thrown) # tr)) (map fst (a # ls))" using tr(3) a by simp
      show "world st' = applied env p r (take (length ((l, thrown) # tr)) (a # ls)) (world st)"
        using tr(4) a by (simp add: step)
      show "\<forall>c\<in>set (butlast ((l, thrown) # tr)). snd c = None"
        using tr(5) None by auto
      show "case res of None \<Rightarrow> map fst ((l, thrown) # tr) = map fst (a # ls)
                  \<and> (\<forall>c\<in>set ((l, thrown) # tr). snd c = None)
             | Some e \<Rightarrow> (l, thrown) # tr \<noteq> [] \<and> snd (last ((l, thrown) # tr)) = Some e"
        using tr(6) None a by (auto split: option.splits)
    qed
  next
    case (Some e)
    with Cons.prems a call have res: "res = Some e" and st': "st' = ?st"
      by auto
    have "world st' = applied env p r (take (length [(l, thrown)]) (a # ls)) (world st)"
      using st' a step [of "[]"] by (simp add: applied_def)
    then show ?thesis
      using a Some res st' by (intro exI [of _ "[(l, thrown)]"]) simp
  qed
qed



lemma every_loader_listed: "fst ` set (always_run @ relevant_only) = UNIV"
proof -
  have "l \<in> fst ` set (always_run @ relevant_only)" for l
    by (cases l) (simp_all add: always_run_def relevant_only_def)
  then show ?thesis by blast
qed

lemma butlast_append_clean:
  assumes "\<forall>c\<in>set xs. P c" and "\<forall>c\<in>set (butlast ys). P c"
  shows "\<forall>c\<in>set (butlast (xs @ ys)). P c"
proof (cases "ys = []")
  case True
  then show ?thesis using assms(1) by (auto dest: in_set_butlastD)
next
  case False
  then show ?thesis using assms by (auto simp: butlast_append)
qed

lemma loadPlayer_body_trace:
  assumes "loadPlayer_body env p r d st = (out, st')" and "invoked st = []"
  shows "prefix (map fst (invoked st')) (map fst (always_run @ relevant_only))"
    and "\<forall>c\<in>set (butlast (invoked st')). snd c = None"
    and "load_log st' = load_log st"
    and "case out of
           Inr b \<Rightarrow> b \<and> (\<forall>c\<in>set (invoked st'). snd c = None)
                   \<and> map fst (invoked st') = map fst (if d then always_run else always_run @ relevant_only)
         | Inl e \<Rightarrow> invoked st' \<noteq> [] \<and> snd (last (invoked st')) = Some e"
    and "d \<Longrightarrow> prefix (map fst (invoked st')) (map fst always_run)"
    and "world st' = applied env p r (take (length (invoked st')) (always_run @ relevant_only))
                       (world st)"
proof -
  obtain res1 st1 where run1: "run_loaders env p r always_run st = (res1, st1)"
    by (cases "run_loaders env p r always_run st")
  from run_loaders_trace [OF run1] assms(2) obtain tr1 where
    tr1: "invoked st1 = tr1" "load_log st1 = load_log st"
      "prefix (map fst tr1) (map fst always_run)" "\<forall>c\<in>set (butlast tr1). snd c = None"
      "(case res1 of None \<Rightarrow> map fst tr1 = map fst always_run \<and> (\<forall>c\<in>set tr1. snd c = None)
                    | Some e \<Rightarrow> tr1 \<noteq> [] \<and> snd (last tr1) = Some e)"
      "world st1 = applied env p r (take (length tr1) always_run) (world st)"
    by auto
  have len1: "length tr1 \<le> length always_run"
    using prefix_length_le [OF tr1(3)] by simp
  have w1: "world st1 = applied env p r (take (length tr1) (always_run @ relevant_only)) (world st)"
    using tr1(6) len1 by simp
  have goal: "prefix (map fst (invoked st')) (map fst (always_run @ relevant_only))
    \<and> (\<forall>c\<in>set (butlast (invoked st')). snd c = None)
    \<and> load_log st' = load_log st
    \<and> (case out of
           Inr b \<Rightarrow> b \<and> (\<forall>c\<in>set (invoked st'). snd c = None)
                   \<and> map fst (invoked st') = map fst (if d then always_run else always_run @ relevant_only)
         | Inl e \<Rightarrow> invoked st' \<noteq> [] \<and> snd (last (invoked st')) = Some e)
    \<and> (d \<longrightarrow> prefix (map fst (invoked st')) (map fst always_run))
    \<and> world st' = applied env p r (take (length (invoked st')) (always_run @ relevant_only))
                       (world st)"
  proof (cases res1)
    case (Some e)
    with assms(1) run1 have "out = Inl e" "st' = st1"
      by (auto simp: loadPlayer_body_def)
    then show ?thesis using tr1(1-5) w1 Some by (auto intro: prefix_order.trans)
  next
    case None
    note first = None
    show ?thesis
    proof (cases d)
      case True
      with assms(1) run1 first have "out = Inr True" "st' = st1"
        by (auto simp: loadPlayer_body_def)
      then show ?thesis using tr1(1-5) w1 first True by (auto intro: prefix_order.trans)
    next
      case False
      obtain res2 st2 where run2: "run_loaders env p r relevant_only st1 = (res2, st2)"
        by (cases "run_loaders env p r relevant_only st1")
      from run_loaders_trace [OF run2] tr1(1) obtain tr2 where
        tr2: "invoked st2 = tr1 @ tr2" "load_log st2 = load_log st1"
          "prefix (map fst tr2) (map fst relevant_only)" "\<forall>c\<in>set (butlast tr2). snd c = None"
          "(case res2 of None \<Rightarrow> map fst tr2 = map fst relevant_only \<and> (\<forall>c\<in>set tr2. snd c = None)
                    | Some e \<Rightarrow> tr2 \<noteq> [] \<and> snd (last tr2) = Some e)"
          "world st2 = applied env p r (take (length tr2) relevant_only) (world st1)"
        by auto
      have st': "st' = st2" and out: "out = (case res2 of Some e \<Rightarrow> Inl e | None \<Rightarrow> Inr True)"
        using assms(1) run1 run2 first False
        by (auto simp: loadPlayer_body_def split: option.splits)
      have all1: "\<forall>c\<in>set tr1. snd c = None" and m1: "map fst tr1 = map fst always_run"
        using tr1(5) first by simp_all
      have full1: "length tr1 = length always_run"
        using map_eq_imp_length_eq [OF m1] .
      have "prefix (map fst (invoked st')) (map fst (always_run @ relevant_only))"
        using st' tr2(1,3) m1 by simp
      moreover have "\<forall>c\<in>set (butlast (invoked st')). snd c = None"
        unfolding st' tr2(1) using all1 tr2(4) by (rule butlast_append_clean)
      moreover have "load_log st' = load_log st"
        using st' tr2(2) tr1(2) by simp
      moreover have "case out of
           Inr b \<Rightarrow> b \<and> (\<forall>c\<in>set (invoked st'). snd c = None)
                   \<and> map fst (invoked st') = map fst (if d then always_run else always_run @ relevant_only)
         | Inl e \<Rightarrow> invoked st' \<noteq> [] \<and> snd (last (invoked st')) = Some e"
        using out st' tr2(1,5) all1 m1 False by (auto split: option.splits)
      moreover have "world st' = applied env p r
          (take (length (invoked st')) (always_run @ relevant_only)) (world st)"
      proof -
        have "take (length (invoked st')) (always_run @ relevant_only)
            = always_run @ take (length tr2) relevant_only"
          using st' tr2(1) full1 by simp
        moreover have "world st1 = applied env p r always_run (world st)"
          using tr1(6) full1 by simp
        ultimately show ?thesis
          using st' tr2(6) by (simp add: applied_append)
      qed
      ultimately show ?thesis using False by simp
    qed
  qed
  from goal show "prefix (map fst (invoked st')) (map fst (always_run @ relevant_only))"
    and "\<forall>c\<in>set (butlast (invoked st')). snd c = None"
    and "load_log st' = load_log st"
    and "case out of
           Inr b \<Rightarrow> b \<and> (\<forall>c\<in>set (invoked st'). snd c = None)
                   \<and> map fst (invoked st') = map fst (if d then always_run else always_run @ relevant_only)
         | Inl e \<Rightarrow> invoked st' \<noteq> [] \<and> snd (last (invoked st')) = Some e"
    and "d \<Longrightarrow> prefix (map fst (invoked st')) (map fst always_run)"
    and "world st' = applied env p r (take (length (invoked st')) (always_run @ relevant_only))
                       (world st)"
    by simp_all
qed



lemma loadPlayer_null:
  assumes "result = None \<or> player = None"
  shows "loadPlayer env player result d w =
    (Inr False, \<lparr>world = w, invoked = [],
             load_log = [(warn, ''[loadPlayer] - '' @ (if result = None then ''Result'' else ''Player'')
                                  @ '' is nullptr'')]\<rparr>)"
  using assms by (auto simp: loadPlayer_def log_warn_def split: option.splits)

lemma loadPlayer_ran:
  assumes "loadPlayer_body env p r d \<lparr>world = w, invoked = [], load_log = []\<rparr> = (out, st)"
  shows "fst (loadPlayer env (Some p) (Some r) d w) =
           (case out of
              Inr b \<Rightarrow> Inr b
            | Inl (std_system_error what) \<Rightarrow> Inr False
            | Inl (std_exception what) \<Rightarrow> Inr False
            | Inl (other_throwable v) \<Rightarrow> Inl (other_throwable v))"
    and "invoked (snd (loadPlayer env (Some p) (Some r) d w)) = invoked st"
    and "world (snd (loadPlayer env (Some p) (Some r) d w)) = world st"
    and "load_log (snd (loadPlayer env (Some p) (Some r) d w)) =
           (case out of
              Inr b \<Rightarrow> load_log st
            | Inl (std_system_error what) \<Rightarrow>
                load_log st @ [(warn, ''[loadPlayer] Error while load player: '' @ what)]
            | Inl (std_exception what) \<Rightarrow>
                load_log st @ [(warn, ''[loadPlayer] Error while load player: '' @ what)]
            | Inl (other_throwable v) \<Rightarrow> load_log st)"
  using assms
  by (auto simp: loadPlayer_def log_warn_def split: sum.splits exception.splits)

text \<open>
  C4, as the code has it. A shallow load does not return success in every run, and a
  deep one does not invoke every sub-loader in every run: a null argument or a throwing
  sub-loader ends the call first. Amended: with \<open>disableIrrelevantInfo\<close> set, the
  forge-history, bosstiary and the two post-initialize sub-loaders are never invoked,
  in any run. When the snapshot and the player are non-null and no invoked sub-loader
  throws, the call returns true; with the flag set exactly the twenty always-run
  sub-loaders have been applied to the world, in order, and with the flag unset those
  twenty followed by the four, so that every sub-loader has been invoked.
\<close>

theorem shallow_load_skips:
  "(d \<longrightarrow> (\<forall>c\<in>set (invoked (snd (loadPlayer env player result d w))).
              fst c \<notin> {loadPlayerForgeHistory, loadPlayerBosstiary,
                         loadPlayerInitializeSystem, loadPlayerUpdateSystem}))
   \<and> (player = Some p \<and> result = Some r
        \<and> (\<forall>c\<in>set (invoked (snd (loadPlayer env player result d w))). snd c = None) \<longrightarrow>
        fst (loadPlayer env player result d w) = Inr True
        \<and> map fst (invoked (snd (loadPlayer env player result d w)))
            = map fst (if d then always_run else always_run @ relevant_only)
        \<and> world (snd (loadPlayer env player result d w))
            = applied env p r (if d then always_run else always_run @ relevant_only) w
        \<and> (\<not> d \<longrightarrow> fst ` set (invoked (snd (loadPlayer env player result d w))) = UNIV))"
proof (cases "result = None \<or> player = None")
  case True
  then show ?thesis by (auto simp: loadPlayer_null [OF True])
next
  case False
  then obtain p' r' where pr: "player = Some p'" "result = Some r'" by auto
  obtain out st where body:
    "loadPlayer_body env p' r' d \<lparr>world = w, invoked = [], load_log = []\<rparr> = (out, st)"
    by (cases "loadPlayer_body env p' r' d \<lparr>world = w, invoked = [], load_log = []\<rparr>")
  note ran = loadPlayer_ran [OF body]
  have init: "invoked \<lparr>world = w, invoked = [], load_log = []\<rparr> = []" by simp
  note tr = loadPlayer_body_trace [OF body init]
  have shallow: "fst c \<notin> {loadPlayerForgeHistory, loadPlayerBosstiary,
                         loadPlayerInitializeSystem, loadPlayerUpdateSystem}"
    if d and c: "c \<in> set (invoked st)" for c
  proof -
    have "set (map fst (invoked st)) \<subseteq> set (map fst always_run)"
      using tr(5) [OF \<open>d\<close>] by (rule set_mono_prefix)
    then have "fst c \<in> fst ` set always_run" using c by auto
    then show ?thesis by (auto simp: always_run_def)
  qed
  have normal: "fst (loadPlayer env player result d w) = Inr True
        \<and> map fst (invoked st) = map fst (if d then always_run else always_run @ relevant_only)
        \<and> world st = applied env p' r' (if d then always_run else always_run @ relevant_only) w
        \<and> (\<not> d \<longrightarrow> fst ` set (invoked st) = UNIV)"
    if clean: "\<forall>c\<in>set (invoked st). snd c = None"
  proof (cases out)
    case (Inl e)
    with tr(4) have ne: "invoked st \<noteq> []" and thrown: "snd (last (invoked st)) = Some e"
      by simp_all
    from ne have "last (invoked st) \<in> set (invoked st)" by (rule last_in_set)
    with clean have "snd (last (invoked st)) = None" by (rule bspec)
    with thrown have False by simp
    then show ?thesis ..
  next
    case (Inr b)
    with tr(4) have b: b
      and m: "map fst (invoked st) = map fst (if d then always_run else always_run @ relevant_only)"
      by simp_all
    have len: "length (invoked st) = length (if d then always_run else always_run @ relevant_only)"
      using map_eq_imp_length_eq [OF m] .
    have wd: "world st = applied env p' r' (if d then always_run else always_run @ relevant_only) w"
      using tr(6) len by (cases d) simp_all
    have "fst ` set (invoked st) = UNIV" if "\<not> d"
    proof -
      have "fst ` set (invoked st) = set (map fst (invoked st))" by simp
      also have "\<dots> = fst ` set (always_run @ relevant_only)"
        unfolding m using that by (simp add: image_Un)
      finally show ?thesis by (simp only: every_loader_listed)
    qed
    moreover have "fst (loadPlayer env player result d w) = Inr True"
      using ran(1) Inr b pr by simp
    ultimately show ?thesis using m wd by simp
  qed
  have inv: "invoked (snd (loadPlayer env player result d w)) = invoked st"
    using ran(2) pr by simp
  have wld: "world (snd (loadPlayer env player result d w)) = world st"
    using ran(3) pr by simp
  have A: "d \<longrightarrow> (\<forall>c\<in>set (invoked st).
              fst c \<notin> {loadPlayerForgeHistory, loadPlayerBosstiary,
                         loadPlayerInitializeSystem, loadPlayerUpdateSystem})"
    using shallow by blast
  have B: "player = Some p \<and> result = Some r
        \<and> (\<forall>c\<in>set (invoked st). snd c = None) \<longrightarrow>
        fst (loadPlayer env player result d w) = Inr True
        \<and> map fst (invoked st) = map fst (if d then always_run else always_run @ relevant_only)
        \<and> world st = applied env p r (if d then always_run else always_run @ relevant_only) w
        \<and> (\<not> d \<longrightarrow> fst ` set (invoked st) = UNIV)"
    using normal pr by auto
  show ?thesis
    unfolding inv wld using A B by (rule conjI)
qed

text \<open>
  The two depths on the concrete sub-loaders, with a well-formed row: the whole outcome,
  with the twenty, respectively twenty-four, facets populated in the world.
\<close>

theorem shallow_load_skips_witness:
  "loadPlayer demo_loaders (Some ()) (Some None) True ([], 7)
     = (Inr True, \<lparr>world = (map fst always_run, 7),
                   invoked = map (\<lambda>(l, b). (l, None)) always_run, load_log = []\<rparr>)
   \<and> loadPlayer demo_loaders (Some ()) (Some None) False ([], 7)
     = (Inr True, \<lparr>world = (map fst (always_run @ relevant_only), 7),
                   invoked = map (\<lambda>(l, b). (l, None)) (always_run @ relevant_only),
                   load_log = []\<rparr>)"
proof -
  let ?shallow = "loadPlayer demo_loaders (Some ()) (Some None) True ([], 7)"
  let ?deep = "loadPlayer demo_loaders (Some ()) (Some None) False ([], 7)"
  have si: "invoked (snd ?shallow) = map (\<lambda>(l, b). (l, None)) always_run"
    and sl: "load_log (snd ?shallow) = []"
    by (simp_all add: loadPlayer_def loadPlayer_body_def always_run_def demo_loaders_def)
  have di: "invoked (snd ?deep) = map (\<lambda>(l, b). (l, None)) (always_run @ relevant_only)"
    and dl: "load_log (snd ?deep) = []"
    by (simp_all add: loadPlayer_def loadPlayer_body_def always_run_def relevant_only_def
        demo_loaders_def)
  have c1: "\<forall>c\<in>set (invoked (snd ?shallow)). snd c = None"
    unfolding si by auto
  have c2: "\<forall>c\<in>set (invoked (snd ?deep)). snd c = None"
    unfolding di by auto
  have a1: "applied demo_loaders () None always_run ([], 7) = (map fst always_run, 7)"
    by (simp add: applied_def always_run_def demo_loaders_def)
  have a2: "applied demo_loaders () None (always_run @ relevant_only) ([], 7)
      = (map fst (always_run @ relevant_only), 7)"
    by (simp add: applied_def always_run_def relevant_only_def demo_loaders_def)
  have s: "fst ?shallow = Inr True \<and> world (snd ?shallow) = (map fst always_run, 7)"
    using shallow_load_skips [of True demo_loaders "Some ()" "Some None" "([], 7)" "()" None]
      c1 a1 by simp
  have d: "fst ?deep = Inr True \<and> world (snd ?deep) = (map fst (always_run @ relevant_only), 7)"
    using shallow_load_skips [of False demo_loaders "Some ()" "Some None" "([], 7)" "()" None]
      c2 a2 by simp
  have "?shallow = (Inr True, \<lparr>world = (map fst always_run, 7),
                   invoked = map (\<lambda>(l, b). (l, None)) always_run, load_log = []\<rparr>)"
    using s si sl by (cases ?shallow) simp
  moreover have "?deep = (Inr True, \<lparr>world = (map fst (always_run @ relevant_only), 7),
                   invoked = map (\<lambda>(l, b). (l, None)) (always_run @ relevant_only),
                   load_log = []\<rparr>)"
    using d di dl by (cases ?deep) simp
  ultimately show ?thesis by (rule conjI)
qed

text \<open>
  The claim C4 as stated fails where the call ends early: a shallow load with a null
  player returns false, a shallow load of a malformed row returns false, and a deep
  load of a malformed row invokes seven sub-loaders only, the four deep ones not
  among them.
\<close>

theorem shallow_load_can_fail:
  "fst (loadPlayer demo_loaders None (Some None) True ([], 7)) = Inr False
   \<and> fst (loadPlayer demo_loaders (Some ()) (Some (Some (std_exception ''malformed row'')))
           True ([], 7)) = Inr False
   \<and> map fst (invoked (snd (loadPlayer demo_loaders (Some ())
           (Some (Some (std_exception ''malformed row''))) False ([], 7))))
     = [loadPlayerFirst, loadPlayerExperience, loadPlayerBlessings, loadPlayerConditions,
        loadPlayerDefaultOutfit, loadPlayerSkullSystem, loadPlayerSkill]"
  by (simp add: loadPlayer_def loadPlayer_body_def always_run_def demo_loaders_def log_warn_def)




section \<open>Facts about the save pipeline\<close>













end
